theory Spec2Isabelle
  imports Complex_Main "HOL-Library.Char_ord" "HOL-Library.List_Lexorder"
    "HOL-Library.Product_Lexorder"
begin

section \<open>Tables as pandas reads them\<close>

text \<open>
  \<^verbatim>\<open>scripts/data-validation.py\<close> works on pandas data frames read from CSV files.
  A cell of such a frame is missing (\<open>NaN\<close>), a number or a string. Numbers are
  taken as rationals: floating-point rounding is left out of the model.
\<close>

datatype cell = NA | Num rat | Str string

text \<open>
  A data frame is its columns in file order, each a name with its cells; all columns of
  a frame that was read from a file have the same length.
\<close>

type_synonym dataframe = "(string \<times> cell list) list"

text \<open>
  The exceptions the script can meet once the files are read: a column that is not
  there (with the names pandas reports), and an arithmetic or ordering operation on a
  column that holds strings.
\<close>

datatype exn = KeyError "string list" | TypeError

definition bind :: "exn + 'a \<Rightarrow> ('a \<Rightarrow> exn + 'b) \<Rightarrow> exn + 'b" where
  "bind m f = (case m of Inl e \<Rightarrow> Inl e | Inr x \<Rightarrow> f x)"

text \<open>\<^verbatim>\<open>try: body  except Exception: handler\<close>\<close>

definition try_except :: "exn + 'a \<Rightarrow> (exn \<Rightarrow> exn + 'a) \<Rightarrow> exn + 'a" where
  "try_except body handler = (case body of Inl e \<Rightarrow> handler e | Inr x \<Rightarrow> Inr x)"

text \<open>\<^verbatim>\<open>df.columns\<close>, \<^verbatim>\<open>df[c]\<close> and \<^verbatim>\<open>df[[c1, ..., cn]]\<close>.\<close>

definition columns_of :: "dataframe \<Rightarrow> string list" where
  "columns_of df = map fst df"

definition getitem :: "dataframe \<Rightarrow> string \<Rightarrow> exn + cell list" where
  "getitem df c = (case map_of df c of None \<Rightarrow> Inl (KeyError [c]) | Some xs \<Rightarrow> Inr xs)"

definition getitems :: "dataframe \<Rightarrow> string list \<Rightarrow> exn + dataframe" where
  "getitems df cs =
     (let absent = filter (\<lambda>c. c \<notin> set (columns_of df)) cs
      in if absent \<noteq> [] then Inl (KeyError absent)
         else Inr (map (\<lambda>c. (c, the (map_of df c))) cs))"

text \<open>\<^verbatim>\<open>df.isna().sum().sum()\<close>: the number of missing cells of a frame.\<close>

definition isna :: "cell \<Rightarrow> bool" where
  "isna c = (c = NA)"

definition isna_sum_sum :: "dataframe \<Rightarrow> nat" where
  "isna_sum_sum df = sum_list (map (\<lambda>(c, xs). length (filter isna xs)) df)"

text \<open>
  Keys are sorted by pandas when it groups. A column has one type, so numbers are only
  compared with numbers and strings with strings; the order below extends both.
\<close>

fun cell_key :: "cell \<Rightarrow> nat \<times> rat \<times> string" where
  "cell_key NA = (0, 0, [])"
| "cell_key (Num r) = (1, r, [])"
| "cell_key (Str s) = (2, 0, s)"

instantiation cell :: linorder
begin

definition less_eq_cell :: "cell \<Rightarrow> cell \<Rightarrow> bool" where
  "less_eq_cell a b = (cell_key a \<le> cell_key b)"

definition less_cell :: "cell \<Rightarrow> cell \<Rightarrow> bool" where
  "less_cell a b = (cell_key a < cell_key b)"

instance
proof
  fix x y z :: cell
  show "(x < y) = (x \<le> y \<and> \<not> y \<le> x)"
    unfolding less_eq_cell_def less_cell_def by (rule less_le_not_le)
  show "x \<le> x"
    unfolding less_eq_cell_def by simp
  show "x \<le> y \<Longrightarrow> y \<le> z \<Longrightarrow> x \<le> z"
    unfolding less_eq_cell_def by (rule order_trans)
  show "x \<le> y \<Longrightarrow> y \<le> x \<Longrightarrow> x = y"
  proof -
    assume "x \<le> y" and "y \<le> x"
    then have "cell_key x = cell_key y"
      unfolding less_eq_cell_def by (rule antisym)
    then show "x = y"
      by (cases x; cases y) simp_all
  qed
  show "x \<le> y \<or> y \<le> x"
    unfolding less_eq_cell_def by (rule linear)
qed

end

section \<open>The pivot table\<close>

text \<open>
  A pivoted matrix: the row labels (\<open>index\<close>), the column labels and the cells row by
  row, \<open>None\<close> for a missing cell.
\<close>

record matrix =
  index :: "cell list"
  columns :: "cell list"
  data :: "rat option list list"

definition shape :: "matrix \<Rightarrow> nat \<times> nat" where
  "shape m = (length (index m), length (columns m))"

definition size_of :: "matrix \<Rightarrow> nat" where
  "size_of m = length (index m) * length (columns m)"

definition matrix_isna_sum_sum :: "matrix \<Rightarrow> nat" where
  "matrix_isna_sum_sum m = sum_list (map (\<lambda>row. length (filter (\<lambda>c. c = None) row)) (data m))"

text \<open>The aggregations the script asks for; pandas skips missing values in both.\<close>

definition mean :: "rat list \<Rightarrow> rat" where
  "mean xs = sum_list xs / of_nat (length xs)"

definition maximum :: "rat list \<Rightarrow> rat" where
  "maximum xs = Max (set xs)"

fun observed :: "cell list \<Rightarrow> rat list" where
  "observed [] = []"
| "observed (Num r # cs) = r # observed cs"
| "observed (c # cs) = observed cs"

definition agg :: "(rat list \<Rightarrow> rat) \<Rightarrow> cell list \<Rightarrow> rat option" where
  "agg f g = (let obs = observed g in if obs = [] then None else Some (f obs))"

text \<open>
  \<^verbatim>\<open>df.pivot_table(index=i, columns=c, values=v, aggfunc=f)\<close> with pandas' defaults
  (\<^verbatim>\<open>dropna=True\<close>, \<^verbatim>\<open>sort=True\<close>, no fill value), in the stages pandas runs:
  \<^item> the value column, then the key columns, must exist (\<open>KeyError\<close>);
  \<^item> the rows are grouped by the pair of keys; a row with a missing key is in no group;
  \<^item> each group is aggregated over its observed values; aggregating a column of strings
    is a \<open>TypeError\<close>;
  \<^item> the groups whose aggregate is missing are dropped;
  \<^item> the remaining groups are unstacked: rows are the sorted row keys, columns the
    sorted column keys, a cell without a group is missing;
  \<^item> the columns that are missing everywhere are dropped.

  A column that holds a string is taken as a column of strings, and the \<open>TypeError\<close>
  is raised at the aggregation for both \<open>mean\<close> and \<open>max\<close>. pandas' \<open>max\<close> does
  aggregate strings: on a string-valued \<open>is_injection\<close> the script fails later, at the
  mean of line 117 and after \<^verbatim>\<open>anomaly_labels.csv\<close> is written, and it returns when no
  group is left. Nothing below is stated about such runs.
\<close>

definition is_str :: "cell \<Rightarrow> bool" where
  "is_str c = (case c of Str s \<Rightarrow> True | _ \<Rightarrow> False)"

definition group_keys :: "cell list \<Rightarrow> cell list \<Rightarrow> (cell \<times> cell) list" where
  "group_keys is cs = remdups (filter (\<lambda>(i, c). i \<noteq> NA \<and> c \<noteq> NA) (zip is cs))"

definition group_values :: "cell list \<Rightarrow> cell list \<Rightarrow> cell list \<Rightarrow> cell \<times> cell \<Rightarrow> cell list" where
  "group_values is cs vs k = map snd (filter (\<lambda>(k', v). k' = k) (zip (zip is cs) vs))"

definition aggregated ::
  "(rat list \<Rightarrow> rat) \<Rightarrow> cell list \<Rightarrow> cell list \<Rightarrow> cell list \<Rightarrow> ((cell \<times> cell) \<times> rat option) list" where
  "aggregated f is cs vs = map (\<lambda>k. (k, agg f (group_values is cs vs k))) (group_keys is cs)"

definition dropna_groups :: "((cell \<times> cell) \<times> rat option) list \<Rightarrow> ((cell \<times> cell) \<times> rat option) list" where
  "dropna_groups gs = filter (\<lambda>(k, v). v \<noteq> None) gs"

definition cell_at :: "((cell \<times> cell) \<times> rat option) list \<Rightarrow> cell \<Rightarrow> cell \<Rightarrow> rat option" where
  "cell_at gs i c = (case map_of gs (i, c) of None \<Rightarrow> None | Some v \<Rightarrow> v)"

definition unstack :: "((cell \<times> cell) \<times> rat option) list \<Rightarrow> matrix" where
  "unstack gs =
     (let rows = sort (remdups (map (\<lambda>(k, v). fst k) gs));
          cols = sort (remdups (map (\<lambda>(k, v). snd k) gs))
      in \<lparr>index = rows, columns = cols,
          data = map (\<lambda>i. map (\<lambda>c. cell_at gs i c) cols) rows\<rparr>)"

definition dropna_columns :: "matrix \<Rightarrow> matrix" where
  "dropna_columns m =
     (let keep = filter (\<lambda>j. \<exists>row \<in> set (data m). row ! j \<noteq> None) [0 ..< length (columns m)]
      in \<lparr>index = index m, columns = map (\<lambda>j. columns m ! j) keep,
          data = map (\<lambda>row. map (\<lambda>j. row ! j) keep) (data m)\<rparr>)"

definition pivot_table ::
  "dataframe \<Rightarrow> string \<Rightarrow> string \<Rightarrow> string \<Rightarrow> (rat list \<Rightarrow> rat) \<Rightarrow> exn + matrix" where
  "pivot_table df i c v f =
     bind (getitem df v) (\<lambda>vs.
     bind (getitem df i) (\<lambda>is.
     bind (getitem df c) (\<lambda>cs.
       if \<exists>x \<in> set vs. is_str x then Inl TypeError
       else Inr (dropna_columns (unstack (dropna_groups (aggregated f is cs vs)))))))"

section \<open>The validator\<close>

text \<open>
  The report of \<^verbatim>\<open>validate_all\<close> is a dictionary from check names to values: a
  boolean, the shape of the matrix, or a ratio (\<open>None\<close> for the \<open>nan\<close> that numpy gives
  for \<open>0 / 0\<close>). A Python dictionary keeps its keys in the order they were first
  assigned, so it is an association list; \<open>dict_set\<close> is the assignment
  \<^verbatim>\<open>results[k] = v\<close> and \<open>map_of\<close> the lookup. The method keeps the report and the
  flag \<^verbatim>\<open>all_valid\<close> as it goes.
\<close>

datatype rvalue = Bool bool | Shape "nat \<times> nat" | Float "rat option"

type_synonym report = "(string \<times> rvalue) list"

fun dict_set :: "report \<Rightarrow> string \<Rightarrow> rvalue \<Rightarrow> report" where
  "dict_set [] k v = [(k, v)]"
| "dict_set ((k', v') # kvs) k v = (if k' = k then (k, v) # kvs else (k', v') # dict_set kvs k v)"

record vstate =
  results :: report
  all_valid :: bool

definition required_cols :: "string list" where
  "required_cols = [''object_id'', ''epoch_day'', ''mag'', ''flux'', ''mag_err'', ''flux_err'']"

text \<open>Lines 28 to 34: the required structure.\<close>

definition columns_step :: "dataframe \<Rightarrow> vstate \<Rightarrow> vstate" where
  "columns_step detections_df s =
     (let missing = filter (\<lambda>col. col \<notin> set (columns_of detections_df)) required_cols;
          s1 = (if missing \<noteq> [] then s\<lparr>all_valid := False\<rparr> else s)
      in s1\<lparr>results := dict_set (results s1) ''columns_ok'' (Bool (length missing = 0))\<rparr>)"

text \<open>Lines 36 to 39: the missing values of the four critical columns are counted.\<close>

definition nan_step :: "dataframe \<Rightarrow> vstate \<Rightarrow> exn + vstate" where
  "nan_step detections_df s =
     bind (getitems detections_df [''object_id'', ''epoch_day'', ''mag'', ''flux'']) (\<lambda>critical.
       let nan_count = isna_sum_sum critical
       in Inr (s\<lparr>results := dict_set (results s) ''no_nans'' (Bool (nan_count = 0))\<rparr>))"

text \<open>
  Lines 41 to 57: the pivot, inside \<^verbatim>\<open>try\<close>. The report is written only after the
  sparsity has been computed, so a failure leaves no entry of the \<^verbatim>\<open>try\<close> body.
\<close>

definition true_divide :: "nat \<Rightarrow> nat \<Rightarrow> rat option" where
  "true_divide a b = (if b = 0 then None else Some (of_nat a / of_nat b))"

definition pivot_step :: "dataframe \<Rightarrow> vstate \<Rightarrow> exn + vstate" where
  "pivot_step detections_df s =
     try_except
       (bind (pivot_table detections_df ''object_id'' ''epoch_day'' ''mag'' mean) (\<lambda>ts_matrix.
          let sparsity = true_divide (matrix_isna_sum_sum ts_matrix) (size_of ts_matrix);
              r1 = dict_set (results s) ''matrix_ok'' (Bool True);
              r2 = dict_set r1 ''matrix_shape'' (Shape (shape ts_matrix));
              r3 = dict_set r2 ''sparsity'' (Float sparsity)
          in Inr (s\<lparr>results := r3\<rparr>)))
       (\<lambda>e. Inr (s\<lparr>results := dict_set (results s) ''matrix_ok'' (Bool False),
                    all_valid := False\<rparr>))"

text \<open>
  Lines 59 to 68: label consistency. \<^verbatim>\<open>== 1\<close> is false on a missing cell and on a
  string; \<^verbatim>\<open>dropna\<close> removes the missing identifiers; \<^verbatim>\<open>unique\<close> keeps the first
  occurrence of each value.
\<close>

definition dropna :: "cell list \<Rightarrow> cell list" where
  "dropna xs = filter (\<lambda>c. \<not> isna c) xs"

definition unique :: "cell list \<Rightarrow> cell list" where
  "unique xs = rev (remdups (rev xs))"

definition inj_from_dets :: "cell list \<Rightarrow> cell list \<Rightarrow> cell list" where
  "inj_from_dets flags ids =
     unique (dropna (map snd (filter (\<lambda>(flag, i). flag = Num 1) (zip flags ids))))"

definition label_step :: "dataframe \<Rightarrow> dataframe \<Rightarrow> vstate \<Rightarrow> exn + vstate" where
  "label_step detections_df injections_df s =
     bind (getitem detections_df ''is_injection'') (\<lambda>flags.
     bind (getitem detections_df ''injection_id'') (\<lambda>ids.
     bind (getitem injections_df ''injection_id'') (\<lambda>tab.
       let inj_from_table = unique tab;
           unmatched = set (inj_from_dets flags ids) - set inj_from_table
       in Inr (s\<lparr>results := dict_set (results s) ''labels_match'' (Bool (card unmatched = 0))\<rparr>))))"

text \<open>
  Lines 70 to 74: the ranges. Comparing a column with a number is false on a missing
  cell and a \<open>TypeError\<close> on a column of strings.
\<close>

definition compare :: "(rat \<Rightarrow> bool) \<Rightarrow> cell list \<Rightarrow> exn + bool list" where
  "compare p xs =
     (if \<exists>x \<in> set xs. is_str x then Inl TypeError
      else Inr (map (\<lambda>c. case c of Num r \<Rightarrow> p r | _ \<Rightarrow> False) xs))"

definition count_true :: "bool list \<Rightarrow> nat" where
  "count_true bs = length (filter (\<lambda>b. b) bs)"

definition sanity_step :: "dataframe \<Rightarrow> vstate \<Rightarrow> exn + vstate" where
  "sanity_step detections_df s =
     bind (getitem detections_df ''mag'') (\<lambda>mag.
     bind (compare (\<lambda>r. r < 10) mag) (\<lambda>low.
     bind (compare (\<lambda>r. r > 30) mag) (\<lambda>high.
       let mag_outliers = count_true (map (\<lambda>(a, b). a \<or> b) (zip low high))
       in
     bind (getitem detections_df ''flux'') (\<lambda>flux.
     bind (compare (\<lambda>r. r < 0) flux) (\<lambda>neg.
       let neg_flux = count_true neg
       in Inr (s\<lparr>results := dict_set (results s) ''reasonable_ranges''
                  (Bool (mag_outliers = 0 \<and> neg_flux = 0))\<rparr>))))))"

text \<open>
  \<^verbatim>\<open>PipelineDataValidator.validate_all\<close>, after the three files have been read. The
  object metadata is read and never used. \<open>Inl\<close> is an exception that leaves the method.
\<close>

definition validate_all :: "dataframe \<Rightarrow> dataframe \<Rightarrow> dataframe \<Rightarrow> exn + (bool \<times> report)" where
  "validate_all detections_df injections_df meta_df =
     (let s0 = \<lparr>results = [], all_valid = True\<rparr>;
          s1 = columns_step detections_df s0
      in bind (nan_step detections_df s1) (\<lambda>s2.
         bind (pivot_step detections_df s2) (\<lambda>s3.
         bind (label_step detections_df injections_df s3) (\<lambda>s4.
         bind (sanity_step detections_df s4) (\<lambda>s5.
           Inr (all_valid s5, results s5))))))"

section \<open>The transformer\<close>

text \<open>\<^verbatim>\<open>ffill(axis=1)\<close>, \<^verbatim>\<open>bfill(axis=1)\<close> and \<^verbatim>\<open>fillna(0)\<close>, row by row.\<close>

fun ffill_from :: "rat option \<Rightarrow> rat option list \<Rightarrow> rat option list" where
  "ffill_from prior [] = []"
| "ffill_from prior (None # xs) = prior # ffill_from prior xs"
| "ffill_from prior (Some v # xs) = Some v # ffill_from (Some v) xs"

definition ffill_row :: "rat option list \<Rightarrow> rat option list" where
  "ffill_row xs = ffill_from None xs"

fun bfill_row :: "rat option list \<Rightarrow> rat option list" where
  "bfill_row [] = []"
| "bfill_row (Some v # xs) = Some v # bfill_row xs"
| "bfill_row (None # xs) = (case bfill_row xs of [] \<Rightarrow> [None] | y # ys \<Rightarrow> y # y # ys)"

definition ffill :: "matrix \<Rightarrow> matrix" where
  "ffill m = m\<lparr>data := map ffill_row (data m)\<rparr>"

definition bfill :: "matrix \<Rightarrow> matrix" where
  "bfill m = m\<lparr>data := map bfill_row (data m)\<rparr>"

definition fillna :: "rat \<Rightarrow> matrix \<Rightarrow> matrix" where
  "fillna v m = m\<lparr>data := map (map (\<lambda>c. case c of None \<Rightarrow> Some v | Some x \<Rightarrow> Some x)) (data m)\<rparr>"

text \<open>
  \<^verbatim>\<open>labels.values.mean()\<close>: the mean of all cells; numpy gives \<open>nan\<close> for a matrix
  without cells and for one with a missing cell.
\<close>

definition values_mean :: "matrix \<Rightarrow> rat option" where
  "values_mean m =
     (let cells = concat (data m)
      in if cells = [] \<or> None \<in> set cells then None else Some (mean (map the cells)))"

record metadata =
  n_objects :: nat
  n_timestamps :: nat
  anomaly_rate :: "rat option"
  data_type :: string
  source :: string

text \<open>
  The files of the output directory, in the order they are written. An exception leaves
  the files written before it.
\<close>

datatype written_file = Csv matrix | Json metadata

type_synonym files = "(string \<times> written_file) list"

text \<open>
  \<^verbatim>\<open>create_pipeline_ready_data\<close>, after the detections have been read: the files
  written, and the returned triple or the exception.
\<close>

definition create_pipeline_ready_data :: "dataframe \<Rightarrow> files \<times> (exn + matrix \<times> matrix \<times> metadata)" where
  "create_pipeline_ready_data detections_df =
     (case pivot_table detections_df ''object_id'' ''epoch_day'' ''mag'' mean of
        Inl e \<Rightarrow> ([], Inl e)
      | Inr pivoted \<Rightarrow>
          let ts = bfill (ffill pivoted);
              written1 = [(''time_series_matrix.csv'', Csv ts)]
          in (case pivot_table detections_df ''object_id'' ''epoch_day'' ''is_injection'' maximum of
                Inl e \<Rightarrow> (written1, Inl e)
              | Inr pivoted_labels \<Rightarrow>
                  let labels = fillna 0 pivoted_labels;
                      written2 = written1 @ [(''anomaly_labels.csv'', Csv labels)];
                      metadata = \<lparr>n_objects = fst (shape ts),
                                  n_timestamps = snd (shape ts),
                                  anomaly_rate = values_mean labels,
                                  data_type = ''time_series'',
                                  source = ''uploaded_dataset''\<rparr>
                  in (written2 @ [(''data_metadata.json'', Json metadata)],
                      Inr (ts, labels, metadata))))"

section \<open>The output directory, and example tables\<close>

text \<open>The time-series matrix found in the output directory after a run.\<close>

definition written_matrix :: "files \<Rightarrow> string \<Rightarrow> matrix option" where
  "written_matrix fs name = (case map_of fs name of Some (Csv m) \<Rightarrow> Some m | _ \<Rightarrow> None)"

text \<open>A table without one of its columns, and with one column replaced.\<close>

definition drop_column :: "string \<Rightarrow> dataframe \<Rightarrow> dataframe" where
  "drop_column c df = filter (\<lambda>(name, xs). name \<noteq> c) df"

definition set_column :: "string \<Rightarrow> cell list \<Rightarrow> dataframe \<Rightarrow> dataframe" where
  "set_column c ys df = map (\<lambda>(name, xs). if name = c then (name, ys) else (name, xs)) df"

text \<open>
  Three detections of two objects at two epochs; the second is an injection with
  identifier 5.
\<close>

definition detections_clean :: dataframe where
  "detections_clean =
     [(''object_id'', [Num 1, Num 1, Num 2]),
      (''epoch_day'', [Num 1, Num 2, Num 1]),
      (''mag'', [Num 20, Num 21, Num 22]),
      (''flux'', [Num 3, Num 4, Num 5]),
      (''mag_err'', [Num 1, Num 1, Num 1]),
      (''flux_err'', [Num 1, Num 1, Num 1]),
      (''is_injection'', [Num 0, Num 1, Num 0]),
      (''injection_id'', [NA, Num 5, NA])]"

definition injections_5 :: dataframe where
  "injections_5 = [(''injection_id'', [Num 5]), (''amplitude'', [Num 2])]"

definition injections_7 :: dataframe where
  "injections_7 = [(''injection_id'', [Num 7]), (''amplitude'', [Num 2])]"

definition object_meta :: dataframe where
  "object_meta = [(''object_id'', [Num 1, Num 2])]"

text \<open>
  Object 1 is seen at epochs 2 and 4 only, object 2 at all five epochs: the pivoted row
  of object 1 is \<open>[NaN, 5, NaN, 7, NaN]\<close>.
\<close>

definition detections_gaps :: dataframe where
  "detections_gaps =
     [(''object_id'', [Num 1, Num 1, Num 2, Num 2, Num 2, Num 2, Num 2]),
      (''epoch_day'', [Num 2, Num 4, Num 1, Num 2, Num 3, Num 4, Num 5]),
      (''mag'', [Num 5, Num 7, Num 20, Num 20, Num 20, Num 20, Num 20]),
      (''is_injection'', [Num 0, Num 0, Num 0, Num 0, Num 1, Num 0, Num 0])]"


section \<open>Facts about the validator\<close>

lemma bind_Inr_iff: "(bind m f = Inr y) = (\<exists>x. m = Inr x \<and> f x = Inr y)"
  by (cases m) (simp_all add: bind_def)

lemma map_of_dict_set: "map_of (dict_set r k v) = (map_of r)(k \<mapsto> v)"
  by (induction r k v rule: dict_set.induct) auto

lemma missing_empty:
  "(filter (\<lambda>col. col \<notin> set (columns_of d)) required_cols = []) =
     (set required_cols \<subseteq> set (columns_of d))"
  by (auto simp: filter_empty_conv)

lemma columns_step_all_valid:
  "all_valid (columns_step d s) = (all_valid s \<and> set required_cols \<subseteq> set (columns_of d))"
  by (simp add: columns_step_def Let_def missing_empty)

lemma columns_step_results:
  "results (columns_step d s) =
     dict_set (results s) ''columns_ok'' (Bool (set required_cols \<subseteq> set (columns_of d)))"
  by (simp add: columns_step_def Let_def missing_empty)

lemma nan_step_Inr:
  assumes "nan_step d s = Inr s'"
  shows "\<exists>critical. getitems d [''object_id'', ''epoch_day'', ''mag'', ''flux''] = Inr critical
           \<and> s' = s\<lparr>results := dict_set (results s) ''no_nans'' (Bool (isna_sum_sum critical = 0))\<rparr>"
  using assms by (auto simp: nan_step_def bind_Inr_iff Let_def)

lemma pivot_step_total:
  "pivot_step d s =
     Inr (case pivot_table d ''object_id'' ''epoch_day'' ''mag'' mean of
            Inl e \<Rightarrow> s\<lparr>results := dict_set (results s) ''matrix_ok'' (Bool False), all_valid := False\<rparr>
          | Inr ts_matrix \<Rightarrow>
              s\<lparr>results := dict_set (dict_set (dict_set (results s) ''matrix_ok'' (Bool True))
                   ''matrix_shape'' (Shape (shape ts_matrix)))
                   ''sparsity'' (Float (true_divide (matrix_isna_sum_sum ts_matrix) (size_of ts_matrix)))\<rparr>)"
  by (simp add: pivot_step_def try_except_def bind_def Let_def split: sum.splits)

lemma set_inj_from_dets:
  "set (inj_from_dets flags ids) = {x. x \<noteq> NA \<and> (Num 1, x) \<in> set (zip flags ids)}"
  by (auto simp: inj_from_dets_def unique_def dropna_def isna_def image_iff)

lemma label_step_Inr:
  assumes "label_step d i s = Inr s'"
  shows "\<exists>flags ids tab. getitem d ''is_injection'' = Inr flags \<and> getitem d ''injection_id'' = Inr ids
           \<and> getitem i ''injection_id'' = Inr tab
           \<and> s' = s\<lparr>results := dict_set (results s) ''labels_match''
                  (Bool (set (inj_from_dets flags ids) \<subseteq> set tab))\<rparr>"
  using assms
  by (auto simp: label_step_def bind_Inr_iff Let_def unique_def)

lemma sanity_step_Inr:
  assumes "sanity_step d s = Inr s'"
  shows "\<exists>b. s' = s\<lparr>results := dict_set (results s) ''reasonable_ranges'' (Bool b)\<rparr>"
  using assms
  by (auto simp: sanity_step_def bind_Inr_iff Let_def)

lemma validate_all_Inr:
  assumes "validate_all d i m = Inr (ok, rep)"
  shows "\<exists>critical flags ids tab b s3.
           getitems d [''object_id'', ''epoch_day'', ''mag'', ''flux''] = Inr critical
         \<and> getitem d ''is_injection'' = Inr flags \<and> getitem d ''injection_id'' = Inr ids
         \<and> getitem i ''injection_id'' = Inr tab
         \<and> pivot_step d (columns_step d \<lparr>results = [], all_valid = True\<rparr>
              \<lparr>results := dict_set (results (columns_step d \<lparr>results = [], all_valid = True\<rparr>))
                  ''no_nans'' (Bool (isna_sum_sum critical = 0))\<rparr>) = Inr s3
         \<and> ok = all_valid s3
         \<and> map_of rep ''columns_ok'' = map_of (results s3) ''columns_ok''
         \<and> map_of rep ''no_nans'' = map_of (results s3) ''no_nans''
         \<and> map_of rep ''matrix_ok'' = map_of (results s3) ''matrix_ok''
         \<and> map_of rep ''labels_match'' = Some (Bool (set (inj_from_dets flags ids) \<subseteq> set tab))
         \<and> map_of rep ''reasonable_ranges'' = Some (Bool b)"
proof -
  let ?s1 = "columns_step d \<lparr>results = [], all_valid = True\<rparr>"
  from assms obtain s2 s3 s4 s5 where
    s2: "nan_step d ?s1 = Inr s2" and s3: "pivot_step d s2 = Inr s3"
    and s4: "label_step d i s3 = Inr s4" and s5: "sanity_step d s4 = Inr s5"
    and ok: "ok = all_valid s5" and rep: "rep = results s5"
    by (auto simp: validate_all_def bind_Inr_iff Let_def)
  from nan_step_Inr [OF s2] obtain critical where
    c: "getitems d [''object_id'', ''epoch_day'', ''mag'', ''flux''] = Inr critical"
    and s2': "s2 = ?s1\<lparr>results := dict_set (results ?s1) ''no_nans'' (Bool (isna_sum_sum critical = 0))\<rparr>"
    by blast
  from label_step_Inr [OF s4] obtain flags ids tab where
    l: "getitem d ''is_injection'' = Inr flags" "getitem d ''injection_id'' = Inr ids"
       "getitem i ''injection_id'' = Inr tab"
    and s4': "s4 = s3\<lparr>results := dict_set (results s3) ''labels_match''
                  (Bool (set (inj_from_dets flags ids) \<subseteq> set tab))\<rparr>"
    by blast
  from sanity_step_Inr [OF s5] obtain b where
    s5': "s5 = s4\<lparr>results := dict_set (results s4) ''reasonable_ranges'' (Bool b)\<rparr>"
    by blast
  have "ok = all_valid s3"
    unfolding ok s5' s4' by simp
  moreover have "map_of rep ''columns_ok'' = map_of (results s3) ''columns_ok''"
    "map_of rep ''no_nans'' = map_of (results s3) ''no_nans''"
    "map_of rep ''matrix_ok'' = map_of (results s3) ''matrix_ok''"
    "map_of rep ''labels_match'' = Some (Bool (set (inj_from_dets flags ids) \<subseteq> set tab))"
    "map_of rep ''reasonable_ranges'' = Some (Bool b)"
    unfolding rep s5' s4' by (simp_all add: map_of_dict_set)
  ultimately show ?thesis using c l s3 [unfolded s2'] by blast
qed

lemma validate_all_flags:
  assumes "validate_all d i m = Inr (ok, rep)"
  shows "ok = (set required_cols \<subseteq> set (columns_of d)
               \<and> \<not> isl (pivot_table d ''object_id'' ''epoch_day'' ''mag'' mean))"
    and "map_of rep ''columns_ok'' = Some (Bool (set required_cols \<subseteq> set (columns_of d)))"
    and "map_of rep ''matrix_ok'' =
           Some (Bool (\<not> isl (pivot_table d ''object_id'' ''epoch_day'' ''mag'' mean)))"
    and "\<exists>critical. getitems d [''object_id'', ''epoch_day'', ''mag'', ''flux''] = Inr critical
           \<and> map_of rep ''no_nans'' = Some (Bool (isna_sum_sum critical = 0))"
proof -
  from validate_all_Inr [OF assms] obtain critical s3 where
    c: "getitems d [''object_id'', ''epoch_day'', ''mag'', ''flux''] = Inr critical"
    and s3: "pivot_step d (columns_step d \<lparr>results = [], all_valid = True\<rparr>
              \<lparr>results := dict_set (results (columns_step d \<lparr>results = [], all_valid = True\<rparr>))
                  ''no_nans'' (Bool (isna_sum_sum critical = 0))\<rparr>) = Inr s3"
    and r: "ok = all_valid s3"
      "map_of rep ''columns_ok'' = map_of (results s3) ''columns_ok''"
      "map_of rep ''no_nans'' = map_of (results s3) ''no_nans''"
      "map_of rep ''matrix_ok'' = map_of (results s3) ''matrix_ok''"
    by blast
  from s3 show "ok = (set required_cols \<subseteq> set (columns_of d)
               \<and> \<not> isl (pivot_table d ''object_id'' ''epoch_day'' ''mag'' mean))"
    unfolding r pivot_step_total
    by (auto simp: columns_step_all_valid split: sum.splits)
  from s3 show "map_of rep ''columns_ok'' = Some (Bool (set required_cols \<subseteq> set (columns_of d)))"
    unfolding r pivot_step_total
    by (auto simp: columns_step_results map_of_dict_set split: sum.splits)
  from s3 show "map_of rep ''matrix_ok'' =
           Some (Bool (\<not> isl (pivot_table d ''object_id'' ''epoch_day'' ''mag'' mean)))"
    unfolding r pivot_step_total
    by (auto simp: map_of_dict_set split: sum.splits)
  from s3 have "map_of rep ''no_nans'' = Some (Bool (isna_sum_sum critical = 0))"
    unfolding r pivot_step_total
    by (auto simp: map_of_dict_set split: sum.splits)
  with c show "\<exists>critical. getitems d [''object_id'', ''epoch_day'', ''mag'', ''flux''] = Inr critical
           \<and> map_of rep ''no_nans'' = Some (Bool (isna_sum_sum critical = 0))"
    by blast
qed

lemma getitems_counts_missing:
  assumes "getitems d cs = Inr critical" and "c \<in> set cs"
    and "map_of d c = Some xs" and "NA \<in> set xs"
  shows "isna_sum_sum critical \<noteq> 0"
proof -
  from assms(1) have critical: "critical = map (\<lambda>c. (c, the (map_of d c))) cs"
    by (auto simp: getitems_def Let_def split: if_splits)
  from assms(2,3) have "(c, xs) \<in> set critical"
    unfolding critical by force
  then have "length (filter isna xs) \<in> set (map (\<lambda>(c, xs). length (filter isna xs)) critical)"
    by force
  then have "length (filter isna xs) \<le> isna_sum_sum critical"
    unfolding isna_sum_sum_def by (simp add: member_le_sum_list)
  moreover from assms(4) have "0 < length (filter isna xs)"
    by (auto simp: filter_empty_conv isna_def)
  ultimately show ?thesis by linarith
qed

text \<open>
  A run that returns has pivoted: a missing key or value column has raised at line 37
  before the pivot, and a \<open>mag\<close> column of strings raises at line 71 after it. So
  the state that the handler of line 55 leaves is seen by no caller.
\<close>

lemma validate_all_returns_pivot:
  assumes "validate_all d i m = Inr (ok, rep)"
  shows "\<not> isl (pivot_table d ''object_id'' ''epoch_day'' ''mag'' mean)"
proof -
  let ?s1 = "columns_step d \<lparr>results = [], all_valid = True\<rparr>"
  from assms obtain s2 s3 s4 s5 where
    s2: "nan_step d ?s1 = Inr s2" and s5: "sanity_step d s4 = Inr s5"
    by (auto simp: validate_all_def bind_Inr_iff Let_def)
  from s2 have "filter (\<lambda>c. c \<notin> set (columns_of d)) [''object_id'', ''epoch_day'', ''mag'', ''flux''] = []"
    by (auto simp: nan_step_def getitems_def bind_Inr_iff Let_def split: if_splits)
  then have "''object_id'' \<in> fst ` set d" "''epoch_day'' \<in> fst ` set d" "''mag'' \<in> fst ` set d"
    by (auto simp: columns_of_def split: if_splits)
  then have "map_of d ''object_id'' \<noteq> None" "map_of d ''epoch_day'' \<noteq> None"
    "map_of d ''mag'' \<noteq> None"
    by (simp_all only: map_of_eq_None_iff not_not)
  then obtain os es mags where g: "getitem d ''object_id'' = Inr os" "getitem d ''epoch_day'' = Inr es"
    "getitem d ''mag'' = Inr mags"
    by (auto simp: getitem_def)
  from s5 g(3) have "\<not> (\<exists>x \<in> set mags. is_str x)"
    by (auto simp: sanity_step_def bind_Inr_iff compare_def split: if_splits)
  with g show ?thesis
    by (simp add: pivot_table_def bind_def)
qed

section \<open>The validator's claims\<close>

text \<open>
  C1, as the code has it. The claim says that a missing value among \<open>object_id\<close>,
  \<open>epoch_day\<close>, \<open>mag\<close>, \<open>flux\<close> gives \<open>no_nans = false\<close> and \<open>overall_pass = false\<close>.
  The first half holds whenever \<^verbatim>\<open>validate_all\<close> returns. The second does not: lines
  36 to 39 write the report entry and leave \<^verbatim>\<open>all_valid\<close> alone, so the flag is true
  exactly when \<open>columns_ok\<close> and \<open>matrix_ok\<close> are.
\<close>

theorem C1_missing_value_reported:
  assumes "validate_all d i m = Inr (ok, rep)"
    and "c \<in> set [''object_id'', ''epoch_day'', ''mag'', ''flux'']"
    and "map_of d c = Some xs" and "NA \<in> set xs"
  shows "map_of rep ''no_nans'' = Some (Bool False)
       \<and> ok = (map_of rep ''columns_ok'' = Some (Bool True)
                \<and> map_of rep ''matrix_ok'' = Some (Bool True))"
proof -
  from validate_all_flags(4) [OF assms(1)] obtain critical where
    c: "getitems d [''object_id'', ''epoch_day'', ''mag'', ''flux''] = Inr critical"
    and n: "map_of rep ''no_nans'' = Some (Bool (isna_sum_sum critical = 0))"
    by blast
  from getitems_counts_missing [OF c assms(2,3,4)] n
  have "map_of rep ''no_nans'' = Some (Bool False)" by simp
  moreover from validate_all_flags(1,2,3) [OF assms(1)]
  have "ok = (map_of rep ''columns_ok'' = Some (Bool True)
                \<and> map_of rep ''matrix_ok'' = Some (Bool True))"
    by simp
  ultimately show ?thesis by simp
qed

text \<open>
  C1 fails as stated: with a missing \<open>flux\<close> in the second detection and everything
  else in order, the report has \<open>no_nans = false\<close> and the overall flag is true.
\<close>

theorem C1_counterexample:
  "validate_all (set_column ''flux'' [Num 3, NA, Num 5] detections_clean) injections_5 object_meta =
     Inr (True,
       [(''columns_ok'', Bool True), (''no_nans'', Bool False), (''matrix_ok'', Bool True),
        (''matrix_shape'', Shape (2, 2)), (''sparsity'', Float (Some (1 / 4))),
        (''labels_match'', Bool True), (''reasonable_ranges'', Bool True)])"
  by code_simp

theorem C1_witness:
  "validate_all (set_column ''flux'' [Num 3, NA, Num 5] detections_clean) injections_5 object_meta =
     Inr (True,
       [(''columns_ok'', Bool True), (''no_nans'', Bool False), (''matrix_ok'', Bool True),
        (''matrix_shape'', Shape (2, 2)), (''sparsity'', Float (Some (1 / 4))),
        (''labels_match'', Bool True), (''reasonable_ranges'', Bool True)])
   \<and> map_of (set_column ''flux'' [Num 3, NA, Num 5] detections_clean) ''flux'' = Some [Num 3, NA, Num 5]
   \<and> map_of [(''columns_ok'', Bool True), (''no_nans'', Bool False), (''matrix_ok'', Bool True),
        (''matrix_shape'', Shape (2, 2)), (''sparsity'', Float (Some (1 / 4))),
        (''labels_match'', Bool True), (''reasonable_ranges'', Bool True)] ''no_nans'' = Some (Bool False)"
proof -
  let ?d = "set_column ''flux'' [Num 3, NA, Num 5] detections_clean"
  let ?rep = "[(''columns_ok'', Bool True), (''no_nans'', Bool False), (''matrix_ok'', Bool True),
        (''matrix_shape'', Shape (2, 2)), (''sparsity'', Float (Some (1 / 4))),
        (''labels_match'', Bool True), (''reasonable_ranges'', Bool True)]"
  have r: "validate_all ?d injections_5 object_meta = Inr (True, ?rep)"
    by code_simp
  have c: "''flux'' \<in> set [''object_id'', ''epoch_day'', ''mag'', ''flux'']"
    by simp
  have x: "map_of ?d ''flux'' = Some [Num 3, NA, Num 5]"
    by code_simp
  have n: "NA \<in> set [Num 3, NA, Num 5]"
    by simp
  from C1_missing_value_reported [OF r c x n] r x show ?thesis
    by simp
qed

text \<open>
  C2, at a failing input: the detections without their \<open>mag\<close> column. Lines 29 to 34
  find the column missing and record \<open>columns_ok = false\<close>; line 37 then selects the
  four critical columns whatever was found, and the \<open>KeyError\<close> leaves the method, so
  no report is returned.
\<close>

lemma validate_all_missing_critical:
  assumes "c \<in> set [''object_id'', ''epoch_day'', ''mag'', ''flux'']"
    and "c \<notin> set (columns_of d)"
  shows "\<exists>names. validate_all d i m = Inl (KeyError names) \<and> c \<in> set names"
proof -
  let ?absent = "filter (\<lambda>c. c \<notin> set (columns_of d)) [''object_id'', ''epoch_day'', ''mag'', ''flux'']"
  from assms have "c \<in> set ?absent" unfolding set_filter by blast
  then have ne: "?absent \<noteq> []" by (metis empty_iff list.set(1))
  then have "getitems d [''object_id'', ''epoch_day'', ''mag'', ''flux''] = Inl (KeyError ?absent)"
    unfolding getitems_def Let_def by (rule if_P)
  then have "validate_all d i m = Inl (KeyError ?absent)"
    by (simp add: validate_all_def nan_step_def bind_def Let_def)
  with \<open>c \<in> set ?absent\<close> show ?thesis by blast
qed

theorem C2_missing_mag_raises:
  "columns_step (drop_column ''mag'' detections_clean) \<lparr>results = [], all_valid = True\<rparr> =
     \<lparr>results = [(''columns_ok'', Bool False)], all_valid = False\<rparr>
   \<and> validate_all (drop_column ''mag'' detections_clean) injections_5 object_meta =
       Inl (KeyError [''mag''])"
  by code_simp

text \<open>
  C5: the overall flag is a function of the \<open>columns_ok\<close>, \<open>no_nans\<close> and \<open>matrix_ok\<close>
  entries. Two runs that agree on these three return the same flag, whatever their
  \<open>labels_match\<close> and \<open>reasonable_ranges\<close> entries are.
\<close>

theorem C5_labels_and_ranges_do_not_gate:
  assumes "validate_all d i m = Inr (ok, rep)"
    and "validate_all d' i' m' = Inr (ok', rep')"
    and "map_of rep ''columns_ok'' = map_of rep' ''columns_ok''"
    and "map_of rep ''no_nans'' = map_of rep' ''no_nans''"
    and "map_of rep ''matrix_ok'' = map_of rep' ''matrix_ok''"
  shows "ok = ok'"
proof -
  from validate_all_flags(1,2,3) [OF assms(1)]
  have "ok = (map_of rep ''columns_ok'' = Some (Bool True)
                \<and> map_of rep ''matrix_ok'' = Some (Bool True))"
    by simp
  moreover from validate_all_flags(1,2,3) [OF assms(2)]
  have "ok' = (map_of rep' ''columns_ok'' = Some (Bool True)
                \<and> map_of rep' ''matrix_ok'' = Some (Bool True))"
    by simp
  ultimately show ?thesis using assms(3,5) by simp
qed

text \<open>
  The spec's two examples at once: detection 2 is flagged with identifier 5, the
  injection table holds identifier 7 only, and its magnitude is 35. Both checks fail and
  the flag is the one of the clean tables.
\<close>

theorem C5_witness:
  "validate_all (set_column ''mag'' [Num 20, Num 35, Num 22] detections_clean) injections_7 object_meta =
     Inr (True,
       [(''columns_ok'', Bool True), (''no_nans'', Bool True), (''matrix_ok'', Bool True),
        (''matrix_shape'', Shape (2, 2)), (''sparsity'', Float (Some (1 / 4))),
        (''labels_match'', Bool False), (''reasonable_ranges'', Bool False)])
   \<and> validate_all detections_clean injections_5 object_meta =
     Inr (True,
       [(''columns_ok'', Bool True), (''no_nans'', Bool True), (''matrix_ok'', Bool True),
        (''matrix_shape'', Shape (2, 2)), (''sparsity'', Float (Some (1 / 4))),
        (''labels_match'', Bool True), (''reasonable_ranges'', Bool True)])
   \<and> True = True"
proof -
  let ?rep = "[(''columns_ok'', Bool True), (''no_nans'', Bool True), (''matrix_ok'', Bool True),
        (''matrix_shape'', Shape (2, 2)), (''sparsity'', Float (Some (1 / 4))),
        (''labels_match'', Bool False), (''reasonable_ranges'', Bool False)]"
  let ?rep' = "[(''columns_ok'', Bool True), (''no_nans'', Bool True), (''matrix_ok'', Bool True),
        (''matrix_shape'', Shape (2, 2)), (''sparsity'', Float (Some (1 / 4))),
        (''labels_match'', Bool True), (''reasonable_ranges'', Bool True)]"
  have r: "validate_all (set_column ''mag'' [Num 20, Num 35, Num 22] detections_clean)
             injections_7 object_meta = Inr (True, ?rep)"
    by code_simp
  have r': "validate_all detections_clean injections_5 object_meta = Inr (True, ?rep')"
    by code_simp
  have a: "map_of ?rep ''columns_ok'' = map_of ?rep' ''columns_ok''" by simp
  have b: "map_of ?rep ''no_nans'' = map_of ?rep' ''no_nans''" by simp
  have c: "map_of ?rep ''matrix_ok'' = map_of ?rep' ''matrix_ok''" by simp
  from C5_labels_and_ranges_do_not_gate [OF r r' a b c] r r' show ?thesis
    by simp
qed

text \<open>
  The pivot step by itself (lines 41 to 57) always hands a state on. When the pivot
  raises, the state has \<open>matrix_ok = false\<close> and the flag is false; when it succeeds,
  the state has \<open>matrix_ok = true\<close>, the shape (rows, columns) and the sparsity, the
  share of missing cells, and the flag is untouched.
\<close>

lemma pivot_step_catches:
  "\<exists>s'. pivot_step d s = Inr s'
     \<and> (case pivot_table d ''object_id'' ''epoch_day'' ''mag'' mean of
          Inl e \<Rightarrow> map_of (results s') ''matrix_ok'' = Some (Bool False) \<and> \<not> all_valid s'
        | Inr ts \<Rightarrow>
            map_of (results s') ''matrix_ok'' = Some (Bool True)
          \<and> map_of (results s') ''matrix_shape'' = Some (Shape (length (index ts), length (columns ts)))
          \<and> map_of (results s') ''sparsity'' =
              Some (Float (if length (index ts) * length (columns ts) = 0 then None
                           else Some (of_nat (matrix_isna_sum_sum ts)
                                      / of_nat (length (index ts) * length (columns ts)))))
          \<and> all_valid s' = all_valid s)"
  unfolding pivot_step_total
  by (simp add: map_of_dict_set shape_def size_of_def true_divide_def split: sum.splits)

text \<open>
  The report that \<^verbatim>\<open>validate_all\<close> returns always has \<open>matrix_ok = true\<close>, with the
  shape and the sparsity of the pivoted matrix.
\<close>

lemma validate_all_reports_matrix:
  assumes "validate_all d i m = Inr (ok, rep)"
  shows "\<exists>ts. pivot_table d ''object_id'' ''epoch_day'' ''mag'' mean = Inr ts
           \<and> map_of rep ''matrix_ok'' = Some (Bool True)
           \<and> map_of rep ''matrix_shape'' = Some (Shape (length (index ts), length (columns ts)))
           \<and> map_of rep ''sparsity'' =
               Some (Float (if length (index ts) * length (columns ts) = 0 then None
                            else Some (of_nat (matrix_isna_sum_sum ts)
                                       / of_nat (length (index ts) * length (columns ts)))))"
proof -
  let ?s1 = "columns_step d \<lparr>results = [], all_valid = True\<rparr>"
  from assms obtain s2 s3 s4 s5 where
    s3: "pivot_step d s2 = Inr s3"
    and s4: "label_step d i s3 = Inr s4" and s5: "sanity_step d s4 = Inr s5"
    and rep: "rep = results s5"
    by (auto simp: validate_all_def bind_Inr_iff Let_def)
  from validate_all_returns_pivot [OF assms] obtain ts where
    p: "pivot_table d ''object_id'' ''epoch_day'' ''mag'' mean = Inr ts"
    by (cases "pivot_table d ''object_id'' ''epoch_day'' ''mag'' mean") simp_all
  from s3 have s3': "s3 = s2\<lparr>results := dict_set (dict_set (dict_set (results s2) ''matrix_ok'' (Bool True))
                   ''matrix_shape'' (Shape (shape ts)))
                   ''sparsity'' (Float (true_divide (matrix_isna_sum_sum ts) (size_of ts)))\<rparr>"
    by (simp add: pivot_step_total p)
  from label_step_Inr [OF s4] obtain b where
    s4': "s4 = s3\<lparr>results := dict_set (results s3) ''labels_match'' (Bool b)\<rparr>"
    by blast
  from sanity_step_Inr [OF s5] obtain b' where
    s5': "s5 = s4\<lparr>results := dict_set (results s4) ''reasonable_ranges'' (Bool b')\<rparr>"
    by blast
  have "map_of rep ''matrix_ok'' = Some (Bool True)"
    "map_of rep ''matrix_shape'' = Some (Shape (length (index ts), length (columns ts)))"
    "map_of rep ''sparsity'' =
               Some (Float (if length (index ts) * length (columns ts) = 0 then None
                            else Some (of_nat (matrix_isna_sum_sum ts)
                                       / of_nat (length (index ts) * length (columns ts)))))"
    unfolding rep s5' s4' s3'
    by (simp_all add: map_of_dict_set shape_def size_of_def true_divide_def)
  with p show ?thesis by blast
qed

text \<open>
  C6, at a failing input: the detections with a \<open>mag\<close> column that is not numeric,
  which pandas reads as a column of strings. The claim says that a pivot that raises
  is turned into \<open>matrix_ok = false\<close> in the report, with \<open>overall_pass = false\<close>.
  The pivot raises \<open>TypeError\<close>, lines 55 to 57 catch it and write
  \<open>matrix_ok = false\<close> and the false flag; then line 71 compares the same column with
  10 outside any \<^verbatim>\<open>try\<close>, and the \<open>TypeError\<close> leaves the method: no report and no
  flag are returned.
\<close>

theorem C6_string_mag_raises:
  "nan_step (set_column ''mag'' [Str ''20'', Str ''faint'', Str ''22''] detections_clean)
     (columns_step (set_column ''mag'' [Str ''20'', Str ''faint'', Str ''22''] detections_clean)
        \<lparr>results = [], all_valid = True\<rparr>) =
     Inr \<lparr>results = [(''columns_ok'', Bool True), (''no_nans'', Bool True)], all_valid = True\<rparr>
   \<and> pivot_table (set_column ''mag'' [Str ''20'', Str ''faint'', Str ''22''] detections_clean)
       ''object_id'' ''epoch_day'' ''mag'' mean = Inl TypeError
   \<and> pivot_step (set_column ''mag'' [Str ''20'', Str ''faint'', Str ''22''] detections_clean)
       \<lparr>results = [(''columns_ok'', Bool True), (''no_nans'', Bool True)], all_valid = True\<rparr> =
     Inr \<lparr>results = [(''columns_ok'', Bool True), (''no_nans'', Bool True),
                      (''matrix_ok'', Bool False)], all_valid = False\<rparr>
   \<and> validate_all (set_column ''mag'' [Str ''20'', Str ''faint'', Str ''22''] detections_clean)
       injections_5 object_meta = Inl TypeError"
  by code_simp

text \<open>
  C7: when \<^verbatim>\<open>validate_all\<close> returns, \<open>labels_match\<close> is true exactly when every
  injection identifier of a detection flagged \<open>is_injection = 1\<close> is an identifier of
  the injection table. A missing identifier is no identifier.
\<close>

theorem C7_labels_match_iff_subset:
  assumes "validate_all d i m = Inr (ok, rep)"
    and "getitem d ''is_injection'' = Inr flags"
    and "getitem d ''injection_id'' = Inr ids"
    and "getitem i ''injection_id'' = Inr tab"
  shows "map_of rep ''labels_match'' =
           Some (Bool ({x. x \<noteq> NA \<and> (Num 1, x) \<in> set (zip flags ids)} \<subseteq> set tab))"
proof -
  from validate_all_Inr [OF assms(1)] obtain flags' ids' tab' where
    "getitem d ''is_injection'' = Inr flags'" "getitem d ''injection_id'' = Inr ids'"
    "getitem i ''injection_id'' = Inr tab'"
    and l: "map_of rep ''labels_match'' = Some (Bool (set (inj_from_dets flags' ids') \<subseteq> set tab'))"
    by blast
  with assms(2,3,4) have "flags' = flags" "ids' = ids" "tab' = tab" by simp_all
  with l show ?thesis by (simp add: set_inj_from_dets)
qed

theorem C7_witness:
  "validate_all (set_column ''mag'' [Num 20, Num 35, Num 22] detections_clean) injections_7 object_meta =
     Inr (True,
       [(''columns_ok'', Bool True), (''no_nans'', Bool True), (''matrix_ok'', Bool True),
        (''matrix_shape'', Shape (2, 2)), (''sparsity'', Float (Some (1 / 4))),
        (''labels_match'', Bool False), (''reasonable_ranges'', Bool False)])
   \<and> getitem (set_column ''mag'' [Num 20, Num 35, Num 22] detections_clean) ''is_injection'' =
       Inr [Num 0, Num 1, Num 0]
   \<and> getitem (set_column ''mag'' [Num 20, Num 35, Num 22] detections_clean) ''injection_id'' =
       Inr [NA, Num 5, NA]
   \<and> getitem injections_7 ''injection_id'' = Inr [Num 7]
   \<and> \<not> {x. x \<noteq> NA \<and> (Num 1, x) \<in> set (zip [Num 0, Num 1, Num 0] [NA, Num 5, NA])} \<subseteq> set [Num 7]"
proof -
  let ?d = "set_column ''mag'' [Num 20, Num 35, Num 22] detections_clean"
  let ?rep = "[(''columns_ok'', Bool True), (''no_nans'', Bool True), (''matrix_ok'', Bool True),
        (''matrix_shape'', Shape (2, 2)), (''sparsity'', Float (Some (1 / 4))),
        (''labels_match'', Bool False), (''reasonable_ranges'', Bool False)]"
  have r: "validate_all ?d injections_7 object_meta = Inr (True, ?rep)"
    by code_simp
  have f: "getitem ?d ''is_injection'' = Inr [Num 0, Num 1, Num 0]"
    by code_simp
  have j: "getitem ?d ''injection_id'' = Inr [NA, Num 5, NA]"
    by code_simp
  have t: "getitem injections_7 ''injection_id'' = Inr [Num 7]"
    by code_simp
  from C7_labels_match_iff_subset [OF r f j t]
  have "\<not> {x. x \<noteq> NA \<and> (Num 1, x) \<in> set (zip [Num 0, Num 1, Num 0] [NA, Num 5, NA])} \<subseteq> set [Num 7]"
    by simp
  with r f j t show ?thesis by simp
qed

text \<open>
  C9: without an \<open>is_injection\<close> column, and with the four critical columns there, the
  method gets through lines 28 to 57 and raises \<open>KeyError\<close> at line 61; no report is
  returned.
\<close>

theorem C9_missing_is_injection_raises:
  assumes "''is_injection'' \<notin> set (columns_of d)"
    and "set [''object_id'', ''epoch_day'', ''mag'', ''flux''] \<subseteq> set (columns_of d)"
  shows "validate_all d i m = Inl (KeyError [''is_injection''])"
proof -
  from assms(2) have "filter (\<lambda>c. c \<notin> set (columns_of d))
      [''object_id'', ''epoch_day'', ''mag'', ''flux''] = []"
    by simp
  then obtain s2 where s2: "nan_step d (columns_step d \<lparr>results = [], all_valid = True\<rparr>) = Inr s2"
    by (simp add: nan_step_def getitems_def bind_def Let_def)
  obtain s3 where s3: "pivot_step d s2 = Inr s3"
    by (simp add: pivot_step_total)
  from assms(1) have "map_of d ''is_injection'' = None"
    by (simp add: columns_of_def map_of_eq_None_iff)
  then have "label_step d i s3 = Inl (KeyError [''is_injection''])"
    by (simp add: label_step_def getitem_def bind_def)
  with s2 s3 show ?thesis
    by (simp add: validate_all_def bind_def Let_def)
qed

theorem C9_witness:
  "''is_injection'' \<notin> set (columns_of (drop_column ''is_injection'' detections_clean))
   \<and> set required_cols \<subseteq> set (columns_of (drop_column ''is_injection'' detections_clean))
   \<and> validate_all (drop_column ''is_injection'' detections_clean) injections_5 object_meta =
       Inl (KeyError [''is_injection''])"
proof -
  let ?d = "drop_column ''is_injection'' detections_clean"
  have a: "''is_injection'' \<notin> set (columns_of ?d)"
    by (simp add: columns_of_def drop_column_def detections_clean_def)
  have b: "set [''object_id'', ''epoch_day'', ''mag'', ''flux''] \<subseteq> set (columns_of ?d)"
    by (simp add: columns_of_def drop_column_def detections_clean_def)
  have c: "set required_cols \<subseteq> set (columns_of ?d)"
    by (simp add: columns_of_def drop_column_def detections_clean_def required_cols_def)
  from C9_missing_is_injection_raises [OF a b, of injections_5 object_meta] a c
  show ?thesis by simp
qed

text \<open>
  C10: a missing injection identifier never takes part in the comparison. When every
  flagged detection has a missing identifier, \<open>labels_match\<close> is true, whatever the
  injection table holds.
\<close>

theorem C10_missing_injection_id_ignored:
  assumes "validate_all d i m = Inr (ok, rep)"
    and "getitem d ''is_injection'' = Inr flags"
    and "getitem d ''injection_id'' = Inr ids"
    and "\<forall>(flag, x) \<in> set (zip flags ids). flag = Num 1 \<longrightarrow> x = NA"
  shows "NA \<notin> set (inj_from_dets flags ids) \<and> map_of rep ''labels_match'' = Some (Bool True)"
proof -
  from validate_all_Inr [OF assms(1)] obtain flags' ids' tab where
    "getitem d ''is_injection'' = Inr flags'" "getitem d ''injection_id'' = Inr ids'"
    and l: "map_of rep ''labels_match'' = Some (Bool (set (inj_from_dets flags' ids') \<subseteq> set tab))"
    by blast
  with assms(2,3) have same: "flags' = flags" "ids' = ids" by simp_all
  from assms(4) have "set (inj_from_dets flags ids) = {}"
    by (auto simp: set_inj_from_dets)
  with l same show ?thesis by simp
qed

theorem C10_witness:
  "validate_all (set_column ''injection_id'' [NA, NA, NA] detections_clean) injections_7 object_meta =
     Inr (True,
       [(''columns_ok'', Bool True), (''no_nans'', Bool True), (''matrix_ok'', Bool True),
        (''matrix_shape'', Shape (2, 2)), (''sparsity'', Float (Some (1 / 4))),
        (''labels_match'', Bool True), (''reasonable_ranges'', Bool True)])
   \<and> getitem (set_column ''injection_id'' [NA, NA, NA] detections_clean) ''is_injection'' =
       Inr [Num 0, Num 1, Num 0]
   \<and> getitem (set_column ''injection_id'' [NA, NA, NA] detections_clean) ''injection_id'' =
       Inr [NA, NA, NA]
   \<and> inj_from_dets [Num 0, Num 1, Num 0] [NA, NA, NA] = []"
proof -
  let ?d = "set_column ''injection_id'' [NA, NA, NA] detections_clean"
  let ?rep = "[(''columns_ok'', Bool True), (''no_nans'', Bool True), (''matrix_ok'', Bool True),
        (''matrix_shape'', Shape (2, 2)), (''sparsity'', Float (Some (1 / 4))),
        (''labels_match'', Bool True), (''reasonable_ranges'', Bool True)]"
  have r: "validate_all ?d injections_7 object_meta = Inr (True, ?rep)"
    by code_simp
  have f: "getitem ?d ''is_injection'' = Inr [Num 0, Num 1, Num 0]"
    by code_simp
  have j: "getitem ?d ''injection_id'' = Inr [NA, NA, NA]"
    by code_simp
  have h: "\<forall>(flag, x) \<in> set (zip [Num 0, Num 1, Num 0] [NA, NA, NA]). flag = Num 1 \<longrightarrow> x = NA"
    by simp
  have e: "inj_from_dets [Num 0, Num 1, Num 0] [NA, NA, NA] = []"
    by code_simp
  from C10_missing_injection_id_ignored [OF r f j h] r f j e show ?thesis
    by simp
qed

section \<open>Facts about the pivot and the fills\<close>



lemma keys_dropna_groups:
  "fst ` set (dropna_groups (map (\<lambda>k. (k, g k)) ks)) = {k \<in> set ks. g k \<noteq> None}"
proof -
  have "set (dropna_groups (map (\<lambda>k. (k, g k)) ks)) = (\<lambda>k. (k, g k)) ` {k \<in> set ks. g k \<noteq> None}"
    unfolding dropna_groups_def by (induction ks) (auto simp del: not_None_eq)
  then show ?thesis by (simp add: image_image del: not_None_eq)
qed

lemma values_dropna_groups: "(k, v) \<in> set (dropna_groups gs) \<Longrightarrow> v \<noteq> None"
  by (auto simp: dropna_groups_def)

lemma index_unstack: "index (unstack gs) = sort (remdups (map (\<lambda>(k, v). fst k) gs))"
  by (simp add: unstack_def Let_def)

lemma columns_unstack: "columns (unstack gs) = sort (remdups (map (\<lambda>(k, v). snd k) gs))"
  by (simp add: unstack_def Let_def)

lemma data_unstack:
  "data (unstack gs) = map (\<lambda>i. map (\<lambda>c. cell_at gs i c) (columns (unstack gs))) (index (unstack gs))"
  by (simp add: unstack_def Let_def)

lemma set_index_unstack: "set (index (unstack gs)) = (\<lambda>(k, v). fst k) ` set gs"
  by (simp add: index_unstack)

lemma set_columns_unstack: "set (columns (unstack gs)) = (\<lambda>(k, v). snd k) ` set gs"
  by (simp add: columns_unstack)

lemma cell_at_present:
  assumes "((i, c), v) \<in> set gs" and "\<forall>(k, v) \<in> set gs. v \<noteq> None"
  shows "cell_at gs i c \<noteq> None"
proof -
  from assms(1) have "(i, c) \<in> fst ` set gs" by force
  then obtain w where w: "map_of gs (i, c) = Some w"
    by (cases "map_of gs (i, c)") (auto simp: map_of_eq_None_iff)
  then have "((i, c), w) \<in> set gs" by (rule map_of_SomeD)
  with assms(2) have "w \<noteq> None" by auto
  with w show ?thesis by (simp add: cell_at_def)
qed

lemma row_has_value:
  assumes all: "\<forall>(k, v) \<in> set gs. v \<noteq> None" and i: "i \<in> set (index (unstack gs))"
  shows "\<exists>c \<in> set (columns (unstack gs)). cell_at gs i c \<noteq> None"
proof -
  from i obtain c v where m: "((i, c), v) \<in> set gs"
    by (auto simp: set_index_unstack)
  then have "c \<in> set (columns (unstack gs))"
    by (force simp: set_columns_unstack)
  moreover from m all have "cell_at gs i c \<noteq> None" by (rule cell_at_present)
  ultimately show ?thesis by blast
qed

lemma column_has_value:
  assumes all: "\<forall>(k, v) \<in> set gs. v \<noteq> None" and c: "c \<in> set (columns (unstack gs))"
  shows "\<exists>i \<in> set (index (unstack gs)). cell_at gs i c \<noteq> None"
proof -
  from c obtain i v where m: "((i, c), v) \<in> set gs"
    by (auto simp: set_columns_unstack)
  then have "i \<in> set (index (unstack gs))"
    by (force simp: set_index_unstack)
  moreover from m all have "cell_at gs i c \<noteq> None" by (rule cell_at_present)
  ultimately show ?thesis by blast
qed

lemma dropna_columns_unstack:
  assumes all: "\<forall>(k, v) \<in> set gs. v \<noteq> None"
  shows "dropna_columns (unstack gs) = unstack gs"
proof -
  let ?m = "unstack gs"
  let ?n = "length (columns ?m)"
  have keep: "filter (\<lambda>j. \<exists>row \<in> set (data ?m). row ! j \<noteq> None) [0 ..< ?n] = [0 ..< ?n]"
  proof -
    have "\<exists>row \<in> set (data ?m). row ! j \<noteq> None" if "j < ?n" for j
    proof -
      from that have "columns ?m ! j \<in> set (columns ?m)" by simp
      from column_has_value [OF all this] obtain i where
        i: "i \<in> set (index ?m)" and v: "cell_at gs i (columns ?m ! j) \<noteq> None" by blast
      let ?row = "map (\<lambda>c. cell_at gs i c) (columns ?m)"
      from i have "?row \<in> set (data ?m)"
        unfolding data_unstack set_map by (rule imageI)
      moreover from that v have "?row ! j \<noteq> None" by simp
      ultimately show ?thesis by blast
    qed
    then show ?thesis by (simp add: filter_id_conv)
  qed
  have rows: "map (\<lambda>j. row ! j) [0 ..< ?n] = row" if "row \<in> set (data ?m)" for row
  proof -
    from that have "length row = ?n" by (auto simp: data_unstack)
    then show ?thesis by (metis map_nth)
  qed
  have cols: "map (\<lambda>j. columns ?m ! j) [0 ..< ?n] = columns ?m" by (rule map_nth)
  have dat: "map (\<lambda>row. map (\<lambda>j. row ! j) [0 ..< ?n]) (data ?m) = data ?m"
    using rows by (simp add: map_idI)
  show ?thesis
    unfolding dropna_columns_def Let_def keep cols dat by simp
qed

lemma pivot_table_Inr:
  assumes "pivot_table d i c v f = Inr p"
  shows "\<exists>os cs vs. getitem d i = Inr os \<and> getitem d c = Inr cs \<and> getitem d v = Inr vs
           \<and> (\<forall>x \<in> set vs. \<not> is_str x)
           \<and> p = unstack (dropna_groups (aggregated f os cs vs))"
proof -
  from assms obtain os cs vs where g: "getitem d i = Inr os" "getitem d c = Inr cs" "getitem d v = Inr vs"
    and r: "(if \<exists>x \<in> set vs. is_str x then Inl TypeError
             else Inr (dropna_columns (unstack (dropna_groups (aggregated f os cs vs))))) = Inr p"
    by (auto simp: pivot_table_def bind_def split: sum.splits)
  from r have n: "\<forall>x \<in> set vs. \<not> is_str x"
    and p: "p = dropna_columns (unstack (dropna_groups (aggregated f os cs vs)))"
    by (auto split: if_splits)
  have "\<forall>(k, v) \<in> set (dropna_groups (aggregated f os cs vs)). v \<noteq> None"
    by (auto dest: values_dropna_groups)
  then have "p = unstack (dropna_groups (aggregated f os cs vs))"
    unfolding p by (rule dropna_columns_unstack)
  with g n show ?thesis by blast
qed

lemma pivot_table_rows:
  assumes "pivot_table d i c v f = Inr p"
  shows "length (data p) = length (index p)"
    and "\<forall>row \<in> set (data p). length row = length (columns p)"
    and "\<forall>row \<in> set (data p). \<exists>x \<in> set row. x \<noteq> None"
proof -
  from pivot_table_Inr [OF assms] obtain gs where p: "p = unstack gs"
    and all: "\<forall>(k, v) \<in> set gs. v \<noteq> None"
    by (auto dest: values_dropna_groups)
  show "length (data p) = length (index p)"
    unfolding p by (simp add: data_unstack)
  show "\<forall>row \<in> set (data p). length row = length (columns p)"
    unfolding p by (auto simp: data_unstack)
  show "\<forall>row \<in> set (data p). \<exists>x \<in> set row. x \<noteq> None"
  proof
    fix row assume "row \<in> set (data p)"
    then obtain i where i: "i \<in> set (index (unstack gs))"
      and row: "row = map (\<lambda>c. cell_at gs i c) (columns (unstack gs))"
      unfolding p by (auto simp: data_unstack)
    from row_has_value [OF all i] show "\<exists>x \<in> set row. x \<noteq> None"
      unfolding row by auto
  qed
qed

text \<open>Filling a row.\<close>

lemma ffill_from_length [simp]: "length (ffill_from prior xs) = length xs"
  by (induction prior xs rule: ffill_from.induct) simp_all

lemma bfill_row_length [simp]: "length (bfill_row xs) = length xs"
  by (induction xs rule: bfill_row.induct) (auto split: list.splits)

lemma ffill_from_Nil_iff [simp]: "(ffill_from prior xs = []) = (xs = [])"
  by (induction prior xs rule: ffill_from.induct) simp_all

lemma bfill_row_Nil_iff [simp]: "(bfill_row xs = []) = (xs = [])"
  by (induction xs rule: bfill_row.induct) (auto split: list.splits)

lemma ffill_from_last:
  "xs \<noteq> [] \<Longrightarrow> prior \<noteq> None \<or> (\<exists>x \<in> set xs. x \<noteq> None) \<Longrightarrow> last (ffill_from prior xs) \<noteq> None"
proof (induction prior xs rule: ffill_from.induct)
  case (1 prior)
  then show ?case by simp
next
  case (2 prior xs)
  then show ?case by (cases xs) auto
next
  case (3 prior v xs)
  then show ?case by (cases xs) auto
qed

lemma bfill_row_full:
  "xs \<noteq> [] \<Longrightarrow> last xs \<noteq> None \<Longrightarrow> None \<notin> set (bfill_row xs)"
proof (induction xs rule: bfill_row.induct)
  case 1
  then show ?case by simp
next
  case (2 v xs)
  then show ?case by (cases xs) auto
next
  case (3 xs)
  then show ?case by (cases xs) (auto split: list.splits)
qed

lemma fill_row_full:
  assumes "\<exists>x \<in> set row. x \<noteq> None"
  shows "None \<notin> set (bfill_row (ffill_row row))"
proof -
  from assms have ne: "row \<noteq> []" by auto
  then have "ffill_row row \<noteq> []"
    by (metis ffill_from_length ffill_row_def length_0_conv)
  moreover from ne assms have "last (ffill_row row) \<noteq> None"
    unfolding ffill_row_def by (simp add: ffill_from_last)
  ultimately show ?thesis by (rule bfill_row_full)
qed

text \<open>The transformer, when it returns.\<close>

lemma create_pipeline_ready_data_Inr:
  assumes "create_pipeline_ready_data d = (w, Inr (ts, labels, meta))"
  shows "\<exists>p l. pivot_table d ''object_id'' ''epoch_day'' ''mag'' mean = Inr p
           \<and> pivot_table d ''object_id'' ''epoch_day'' ''is_injection'' maximum = Inr l
           \<and> ts = bfill (ffill p) \<and> labels = fillna 0 l
           \<and> meta = \<lparr>n_objects = fst (shape ts), n_timestamps = snd (shape ts),
                      anomaly_rate = values_mean labels, data_type = ''time_series'',
                      source = ''uploaded_dataset''\<rparr>
           \<and> w = [(''time_series_matrix.csv'', Csv ts), (''anomaly_labels.csv'', Csv labels),
                  (''data_metadata.json'', Json meta)]"
  using assms
  by (auto simp: create_pipeline_ready_data_def Let_def split: sum.splits)

lemma written_time_series:
  assumes "written_matrix (fst (create_pipeline_ready_data d)) ''time_series_matrix.csv'' = Some ts"
  shows "\<exists>p. pivot_table d ''object_id'' ''epoch_day'' ''mag'' mean = Inr p \<and> ts = bfill (ffill p)"
  using assms
  by (auto simp: create_pipeline_ready_data_def written_matrix_def Let_def split: sum.splits)

lemma returned_time_series:
  assumes "snd (create_pipeline_ready_data d) = Inr (ts, labels, meta)"
  shows "written_matrix (fst (create_pipeline_ready_data d)) ''time_series_matrix.csv'' = Some ts"
  using assms
  by (auto simp: create_pipeline_ready_data_def written_matrix_def Let_def split: sum.splits)

lemma fillna_full: "None \<notin> set (concat (data (fillna v m)))"
  by (auto simp: fillna_def split: option.splits)








section \<open>The transformer's claims\<close>

text \<open>
  C3, as the code has it. The time-series matrix that is written is the pivoted
  matrix with every row forward-filled, then backward-filled, and it has no missing
  cell: the pivot keeps no row without an observed value. A returned matrix is the
  written one. Forward filling comes first, so the row \<open>[NaN, 5, NaN, 7, NaN]\<close> becomes
  \<open>[5, 5, 5, 7, 7]\<close>: the gap between 5 and 7 takes the earlier value.
\<close>

theorem C3_filled_matrix_has_no_missing_cell:
  assumes "written_matrix (fst (create_pipeline_ready_data d)) ''time_series_matrix.csv'' = Some ts"
  shows "(\<exists>p. pivot_table d ''object_id'' ''epoch_day'' ''mag'' mean = Inr p
            \<and> index ts = index p \<and> columns ts = columns p
            \<and> data ts = map (\<lambda>row. bfill_row (ffill_row row)) (data p))
       \<and> (\<forall>row \<in> set (data ts). None \<notin> set row)
       \<and> (\<forall>ts' labels meta. snd (create_pipeline_ready_data d) = Inr (ts', labels, meta) \<longrightarrow> ts' = ts)
       \<and> bfill_row (ffill_row [None, Some 5, None, Some 7, None]) =
           [Some 5, Some 5, Some 5, Some 7, Some 7]"
proof -
  from written_time_series [OF assms] obtain p where
    p: "pivot_table d ''object_id'' ''epoch_day'' ''mag'' mean = Inr p"
    and ts: "ts = bfill (ffill p)"
    by blast
  have d: "data ts = map (\<lambda>row. bfill_row (ffill_row row)) (data p)"
    unfolding ts by (simp add: bfill_def ffill_def)
  have "None \<notin> set row" if "row \<in> set (data ts)" for row
  proof -
    from that d obtain row0 where "row0 \<in> set (data p)" and row: "row = bfill_row (ffill_row row0)"
      by auto
    with pivot_table_rows(3) [OF p] have "\<exists>x \<in> set row0. x \<noteq> None" by blast
    then show ?thesis unfolding row by (rule fill_row_full)
  qed
  moreover have "ts' = ts" if "snd (create_pipeline_ready_data d) = Inr (ts', labels, meta)"
    for ts' labels meta
    using returned_time_series [OF that] assms by simp
  moreover have "bfill_row (ffill_row [None, Some 5, None, Some 7, None]) =
      [Some (5::rat), Some 5, Some 5, Some 7, Some 7]"
    by (simp add: ffill_row_def)
  moreover have "index ts = index p" "columns ts = columns p"
    unfolding ts by (simp_all add: bfill_def ffill_def)
  ultimately show ?thesis using p d by blast
qed

text \<open>
  C3 fails as stated: object 1 of \<open>detections_gaps\<close> has the pivoted row
  \<open>[NaN, 5, NaN, 7, NaN]\<close>, and the row that is written is \<open>[5, 5, 5, 7, 7]\<close>, not the
  \<open>[5, 5, 7, 7, 7]\<close> of the claim.
\<close>

theorem C3_counterexample:
  "pivot_table detections_gaps ''object_id'' ''epoch_day'' ''mag'' mean =
     Inr \<lparr>index = [Num 1, Num 2], columns = [Num 1, Num 2, Num 3, Num 4, Num 5],
          data = [[None, Some 5, None, Some 7, None],
                  [Some 20, Some 20, Some 20, Some 20, Some 20]]\<rparr>
   \<and> written_matrix (fst (create_pipeline_ready_data detections_gaps)) ''time_series_matrix.csv'' =
     Some \<lparr>index = [Num 1, Num 2], columns = [Num 1, Num 2, Num 3, Num 4, Num 5],
           data = [[Some 5, Some 5, Some 5, Some 7, Some 7],
                   [Some 20, Some 20, Some 20, Some 20, Some 20]]\<rparr>
   \<and> bfill_row (ffill_row [None, Some 5, None, Some 7, None]) \<noteq>
       [Some 5, Some 5, Some 7, Some 7, Some 7]"
  by code_simp

theorem C3_witness:
  "written_matrix (fst (create_pipeline_ready_data detections_gaps)) ''time_series_matrix.csv'' =
     Some \<lparr>index = [Num 1, Num 2], columns = [Num 1, Num 2, Num 3, Num 4, Num 5],
           data = [[Some 5, Some 5, Some 5, Some 7, Some 7],
                   [Some 20, Some 20, Some 20, Some 20, Some 20]]\<rparr>
   \<and> None \<notin> set [Some (5::rat), Some 5, Some 5, Some 7, Some 7]
   \<and> bfill_row (ffill_row [None, Some 5, None, Some 7, None]) =
       [Some 5, Some 5, Some 5, Some 7, Some 7]"
proof -
  let ?ts = "\<lparr>index = [Num 1, Num 2], columns = [Num 1, Num 2, Num 3, Num 4, Num 5],
           data = [[Some 5, Some 5, Some 5, Some 7, Some 7],
                   [Some 20, Some 20, Some 20, Some 20, Some 20]]\<rparr>"
  have w: "written_matrix (fst (create_pipeline_ready_data detections_gaps))
             ''time_series_matrix.csv'' = Some ?ts"
    by code_simp
  from C3_filled_matrix_has_no_missing_cell [OF w] w show ?thesis
    by simp
qed




text \<open>
  C8: when the transformer returns, the metadata it returns is the metadata it has
  written; \<open>n_objects\<close> and \<open>n_timestamps\<close> are the numbers of rows and columns of the
  time-series matrix, \<open>anomaly_rate\<close> is the sum of all cells of the label matrix over
  their number (\<open>nan\<close> for a matrix without cells), and the two descriptive fields are
  fixed.
\<close>

theorem C8_metadata:
  assumes "create_pipeline_ready_data d = (w, Inr (ts, labels, meta))"
  shows "map_of w ''data_metadata.json'' = Some (Json meta)
       \<and> n_objects meta = length (index ts) \<and> n_objects meta = length (data ts)
       \<and> n_timestamps meta = length (columns ts)
       \<and> (\<forall>row \<in> set (data ts). length row = n_timestamps meta)
       \<and> None \<notin> set (concat (data labels))
       \<and> anomaly_rate meta =
           (if concat (data labels) = [] then None
            else Some (sum_list (map the (concat (data labels)))
                       / of_nat (length (concat (data labels)))))
       \<and> data_type meta = ''time_series'' \<and> source meta = ''uploaded_dataset''"
proof -
  from create_pipeline_ready_data_Inr [OF assms] obtain p l where
    p: "pivot_table d ''object_id'' ''epoch_day'' ''mag'' mean = Inr p"
    and ts: "ts = bfill (ffill p)" and labels: "labels = fillna 0 l"
    and meta: "meta = \<lparr>n_objects = fst (shape ts), n_timestamps = snd (shape ts),
                      anomaly_rate = values_mean labels, data_type = ''time_series'',
                      source = ''uploaded_dataset''\<rparr>"
    and w: "w = [(''time_series_matrix.csv'', Csv ts), (''anomaly_labels.csv'', Csv labels),
                  (''data_metadata.json'', Json meta)]"
    by blast
  have full: "None \<notin> set (concat (data labels))"
    unfolding labels by (rule fillna_full)
  have "map_of w ''data_metadata.json'' = Some (Json meta)"
    unfolding w by simp
  moreover have "n_objects meta = length (index ts)" "n_timestamps meta = length (columns ts)"
    "data_type meta = ''time_series''" "source meta = ''uploaded_dataset''"
    unfolding meta by (simp_all add: shape_def)
  moreover have "length (data ts) = length (index ts)"
    using pivot_table_rows(1) [OF p] unfolding ts by (simp add: bfill_def ffill_def)
  moreover have "\<forall>row \<in> set (data ts). length row = length (columns ts)"
    using pivot_table_rows(2) [OF p] unfolding ts
    by (auto simp: bfill_def ffill_def ffill_row_def)
  moreover from full have "anomaly_rate meta =
           (if concat (data labels) = [] then None
            else Some (sum_list (map the (concat (data labels)))
                       / of_nat (length (concat (data labels)))))"
    unfolding meta by (simp add: values_mean_def mean_def Let_def)
  ultimately show ?thesis using full by simp
qed

theorem C8_witness:
  "snd (create_pipeline_ready_data detections_gaps) =
     Inr (\<lparr>index = [Num 1, Num 2], columns = [Num 1, Num 2, Num 3, Num 4, Num 5],
            data = [[Some 5, Some 5, Some 5, Some 7, Some 7],
                    [Some 20, Some 20, Some 20, Some 20, Some 20]]\<rparr>,
          \<lparr>index = [Num 1, Num 2], columns = [Num 1, Num 2, Num 3, Num 4, Num 5],
            data = [[Some 0, Some 0, Some 0, Some 0, Some 0],
                    [Some 0, Some 0, Some 1, Some 0, Some 0]]\<rparr>,
          \<lparr>n_objects = 2, n_timestamps = 5, anomaly_rate = Some (1 / 10),
            data_type = ''time_series'', source = ''uploaded_dataset''\<rparr>)
   \<and> map_of (fst (create_pipeline_ready_data detections_gaps)) ''data_metadata.json'' =
       Some (Json \<lparr>n_objects = 2, n_timestamps = 5, anomaly_rate = Some (1 / 10),
            data_type = ''time_series'', source = ''uploaded_dataset''\<rparr>)"
proof -
  let ?ts = "\<lparr>index = [Num 1, Num 2], columns = [Num 1, Num 2, Num 3, Num 4, Num 5],
            data = [[Some 5, Some 5, Some 5, Some 7, Some 7],
                    [Some 20, Some 20, Some 20, Some 20, Some 20]]\<rparr>"
  let ?labels = "\<lparr>index = [Num 1, Num 2], columns = [Num 1, Num 2, Num 3, Num 4, Num 5],
            data = [[Some 0, Some 0, Some 0, Some 0, Some 0],
                    [Some 0, Some 0, Some 1, Some 0, Some 0]]\<rparr>"
  let ?meta = "\<lparr>n_objects = 2, n_timestamps = 5, anomaly_rate = Some (1 / 10),
            data_type = ''time_series'', source = ''uploaded_dataset''\<rparr>"
  have s: "snd (create_pipeline_ready_data detections_gaps) = Inr (?ts, ?labels, ?meta)"
    by code_simp
  then have r: "create_pipeline_ready_data detections_gaps =
      (fst (create_pipeline_ready_data detections_gaps), Inr (?ts, ?labels, ?meta))"
    by (metis prod.collapse)
  from C8_metadata [OF r] s show ?thesis
    by simp
qed

end
